theory Spec2Isabelle
  imports Complex_Main
begin

section \<open>float64 values as numpy computes with them\<close>

text \<open>
  The two numeric functions of \<^verbatim>\<open>Antoine_script.py\<close> work on numpy float64 data: the
  temperature is a numpy array at every call site, so each operator of the formula is the
  numpy ufunc, applied element by element. A numpy ufunc never raises on a domain error
  (it warns): it returns an IEEE 754 special value.

  A float64 is modelled as a finite real, an infinity or NaN. The model keeps
  \<^item> the special values, with the rules of IEEE 754 for every operation used;
  \<^item> the range: a result at or beyond the overflow threshold becomes an infinity, one
    between the largest float64 and the threshold becomes the largest float64, and a
    product, quotient, power or exponential of magnitude at most half the smallest
    subnormal becomes zero.

  It leaves out the rounding of a result inside the range: there a finite value is the
  exact real, also for \<open>np.exp\<close>, \<open>np.log\<close> and the grid of \<open>np.linspace\<close>. It
  leaves out the sign of zero as well: a zero divisor or base is \<open>+0.0\<close>, which is what
  a sum \<open>T + c\<close> of two values that cancel is under round-to-nearest. So the statements
  below are about special values, about the range and about the order of the values the
  search compares; none of them is about the digits of a rounded result.
\<close>

datatype npfloat = Fin real | PInf | NInf | NaN

text \<open>The largest finite float64, \<open>(2 - 2\<^sup>-\<^sup>5\<^sup>2) * 2\<^sup>1\<^sup>0\<^sup>2\<^sup>3\<close>.\<close>

definition MAXF :: real where
  "MAXF = (2 ^ 53 - 1) * 2 ^ 971"

text \<open>Half the smallest positive subnormal float64, \<open>2\<^sup>-\<^sup>1\<^sup>0\<^sup>7\<^sup>5\<close>.\<close>

definition TINY :: real where
  "TINY = 1 / 2 ^ 1075"

text \<open>
  Round-to-nearest at the top of the range: the midpoint between \<open>MAXF\<close> and
  \<open>2\<^sup>1\<^sup>0\<^sup>2\<^sup>4\<close> is \<open>MAXF + 2\<^sup>9\<^sup>7\<^sup>0\<close>; a result of at least that magnitude becomes an
  infinity, a smaller one beyond \<open>MAXF\<close> becomes \<open>MAXF\<close>.
\<close>

definition overflow :: "real \<Rightarrow> npfloat" where
  "overflow x =
     (if MAXF + 2 ^ 970 \<le> x then PInf
      else if x \<le> - (MAXF + 2 ^ 970) then NInf
      else Fin (max (- MAXF) (min MAXF x)))"

definition rnd :: "real \<Rightarrow> npfloat" where
  "rnd x = (if \<bar>x\<bar> \<le> TINY then Fin 0 else overflow x)"

fun isnan :: "npfloat \<Rightarrow> bool" where
  "isnan NaN = True"
| "isnan _ = False"

fun isfinite :: "npfloat \<Rightarrow> bool" where
  "isfinite (Fin _) = True"
| "isfinite _ = False"

text \<open>The sign of a value that is not NaN, and the infinity of a sign (NaN for sign 0).\<close>

fun np_sgn :: "npfloat \<Rightarrow> real" where
  "np_sgn (Fin x) = sgn x"
| "np_sgn PInf = 1"
| "np_sgn NInf = - 1"
| "np_sgn NaN = 0"

definition signed_inf :: "real \<Rightarrow> npfloat" where
  "signed_inf s = (if 0 < s then PInf else if s < 0 then NInf else NaN)"

fun np_add :: "npfloat \<Rightarrow> npfloat \<Rightarrow> npfloat" where
  "np_add NaN _ = NaN"
| "np_add _ NaN = NaN"
| "np_add PInf NInf = NaN"
| "np_add NInf PInf = NaN"
| "np_add PInf _ = PInf"
| "np_add _ PInf = PInf"
| "np_add NInf _ = NInf"
| "np_add _ NInf = NInf"
| "np_add (Fin x) (Fin y) = overflow (x + y)"

fun np_neg :: "npfloat \<Rightarrow> npfloat" where
  "np_neg (Fin x) = Fin (- x)"
| "np_neg PInf = NInf"
| "np_neg NInf = PInf"
| "np_neg NaN = NaN"

definition np_sub :: "npfloat \<Rightarrow> npfloat \<Rightarrow> npfloat" where
  "np_sub x y = np_add x (np_neg y)"

text \<open>A product with an infinite factor is an infinity, or NaN when the other factor is zero.\<close>

fun np_mul :: "npfloat \<Rightarrow> npfloat \<Rightarrow> npfloat" where
  "np_mul NaN _ = NaN"
| "np_mul _ NaN = NaN"
| "np_mul (Fin x) (Fin y) = rnd (x * y)"
| "np_mul x y = signed_inf (np_sgn x * np_sgn y)"

text \<open>
  Division by zero gives no exception in numpy: \<open>x / 0\<close> is the infinity of the sign of
  \<open>x\<close>, and \<open>0 / 0\<close> is NaN.
\<close>

fun np_div :: "npfloat \<Rightarrow> npfloat \<Rightarrow> npfloat" where
  "np_div NaN _ = NaN"
| "np_div _ NaN = NaN"
| "np_div (Fin x) (Fin y) = (if y = 0 then signed_inf x else rnd (x / y))"
| "np_div (Fin x) _ = Fin 0"
| "np_div x (Fin y) = signed_inf (np_sgn x * (if y < 0 then - 1 else 1))"
| "np_div _ _ = NaN"

fun np_log :: "npfloat \<Rightarrow> npfloat" where
  "np_log (Fin x) = (if x < 0 then NaN else if x = 0 then NInf else Fin (ln x))"
| "np_log PInf = PInf"
| "np_log NInf = NaN"
| "np_log NaN = NaN"

fun np_exp :: "npfloat \<Rightarrow> npfloat" where
  "np_exp (Fin x) = rnd (exp x)"
| "np_exp PInf = PInf"
| "np_exp NInf = Fin 0"
| "np_exp NaN = NaN"

fun np_abs :: "npfloat \<Rightarrow> npfloat" where
  "np_abs (Fin x) = Fin \<bar>x\<bar>"
| "np_abs PInf = PInf"
| "np_abs NInf = PInf"
| "np_abs NaN = NaN"

definition is_int :: "real \<Rightarrow> bool" where
  "is_int y = (y = of_int \<lfloor>y\<rfloor>)"

definition is_odd_int :: "real \<Rightarrow> bool" where
  "is_odd_int y = (is_int y \<and> odd \<lfloor>y\<rfloor>)"

text \<open>
  \<open>T ** f\<close> on an array is \<open>numpy.power\<close>, the \<open>pow\<close> of C: \<open>pow(x, 0) = 1\<close> and
  \<open>pow(1, y) = 1\<close> even for NaN, a negative base with an exponent that is no integer gives
  NaN, and a zero base with a negative exponent gives an infinity.
\<close>

fun np_pow :: "npfloat \<Rightarrow> npfloat \<Rightarrow> npfloat" where
  "np_pow x (Fin y) =
     (if y = 0 then Fin 1
      else case x of
        NaN \<Rightarrow> NaN
      | Fin b \<Rightarrow>
          (if 0 < b then rnd (b powr y)
           else if b = 0 then (if 0 < y then Fin 0 else PInf)
           else if is_int y then rnd (b powi \<lfloor>y\<rfloor>)
           else NaN)
      | PInf \<Rightarrow> (if 0 < y then PInf else Fin 0)
      | NInf \<Rightarrow> (if 0 < y then (if is_odd_int y then NInf else PInf) else Fin 0))"
| "np_pow x NaN = (if x = Fin 1 then Fin 1 else NaN)"
| "np_pow x PInf =
     (case x of
        NaN \<Rightarrow> NaN
      | Fin b \<Rightarrow> (if \<bar>b\<bar> < 1 then Fin 0 else if \<bar>b\<bar> = 1 then Fin 1 else PInf)
      | PInf \<Rightarrow> PInf
      | NInf \<Rightarrow> PInf)"
| "np_pow x NInf =
     (case x of
        NaN \<Rightarrow> NaN
      | Fin b \<Rightarrow> (if \<bar>b\<bar> < 1 then PInf else if \<bar>b\<bar> = 1 then Fin 1 else Fin 0)
      | PInf \<Rightarrow> Fin 0
      | NInf \<Rightarrow> Fin 0)"

text \<open>The comparison \<open>x <= y\<close> of float64: false whenever an operand is NaN.\<close>

fun np_le :: "npfloat \<Rightarrow> npfloat \<Rightarrow> bool" where
  "np_le NaN _ = False"
| "np_le _ NaN = False"
| "np_le NInf _ = True"
| "np_le _ PInf = True"
| "np_le (Fin x) (Fin y) = (x \<le> y)"
| "np_le _ _ = False"

section \<open>The Antoine equation\<close>

text \<open>
  \<^verbatim>\<open>
  def calcular_presion_vapor(T, a, b, c, d, e, f):
      lnP = a + b / (T + c) + d * np.log(T) + e * T**f
      return np.exp(lnP)
  \<close>
  The sum associates to the left, as Python parses it.
\<close>

definition calcular_presion_vapor ::
  "npfloat \<Rightarrow> npfloat \<Rightarrow> npfloat \<Rightarrow> npfloat \<Rightarrow> npfloat \<Rightarrow> npfloat \<Rightarrow> npfloat \<Rightarrow> npfloat" where
  "calcular_presion_vapor T a b c d e f =
     (let lnP = np_add (np_add (np_add a (np_div b (np_add T c))) (np_mul d (np_log T)))
                  (np_mul e (np_pow T f))
      in np_exp lnP)"

section \<open>The boiling temperature by grid search\<close>

datatype py_error = ValueError | IndexError | AttributeError

text \<open>
  \<open>IndexError\<close> is a subclass of \<open>LookupError\<close> in Python; \<open>ValueError\<close> and
  \<open>AttributeError\<close> are not.
\<close>

fun is_LookupError :: "py_error \<Rightarrow> bool" where
  "is_LookupError IndexError = True"
| "is_LookupError _ = False"

text \<open>
  \<open>np.linspace(start, stop, num)\<close>: \<open>num\<close> values \<open>start + i * step\<close> with
  \<open>step = (stop - start) / (num - 1)\<close>, in increasing index order.
\<close>

definition linspace :: "real \<Rightarrow> real \<Rightarrow> nat \<Rightarrow> npfloat list" where
  "linspace start stop num =
     map (\<lambda>i. Fin (start + real i * ((stop - start) / real (num - 1)))) [0..<num]"

text \<open>
  \<open>argmin\<close> of numpy on a float64 array. Its loop keeps the smallest value seen and the
  index where it was first seen, replaces them when \<open>not (x >= mp)\<close>, and stops at the
  first NaN, which it takes as minimal. An empty array raises \<open>ValueError\<close>.
\<close>

fun argmin_loop :: "npfloat \<Rightarrow> nat \<Rightarrow> nat \<Rightarrow> npfloat list \<Rightarrow> nat" where
  "argmin_loop mp min_ind i [] = min_ind"
| "argmin_loop mp min_ind i (x # xs) =
     (if \<not> np_le mp x
      then (if isnan x then i else argmin_loop x i (Suc i) xs)
      else argmin_loop mp min_ind (Suc i) xs)"

definition argmin :: "npfloat list \<Rightarrow> py_error + nat" where
  "argmin xs =
     (case xs of
        [] \<Rightarrow> Inl ValueError
      | x # rest \<Rightarrow> Inr (if isnan x then 0 else argmin_loop x 0 1 rest))"

text \<open>
  \<^verbatim>\<open>
  def calcular_ebullicion(P_objetivo, a, b, c, d, e, f):
      T_range = np.linspace(200, 700, 1000)
      lnP = a + b / (T_range + c) + d * np.log(T_range) + e * T_range**f
      P_calc = np.exp(lnP)
      idx = (np.abs(P_calc - P_objetivo)).argmin()
      return T_range[idx]
  \<close>
  Each array operation is the scalar one on every element.
\<close>

definition calcular_ebullicion ::
  "npfloat \<Rightarrow> npfloat \<Rightarrow> npfloat \<Rightarrow> npfloat \<Rightarrow> npfloat \<Rightarrow> npfloat \<Rightarrow> npfloat \<Rightarrow> py_error + npfloat" where
  "calcular_ebullicion P_objetivo a b c d e f =
     (let T_range = linspace 200 700 1000;
          lnP = map (\<lambda>T. np_add (np_add (np_add a (np_div b (np_add T c))) (np_mul d (np_log T)))
                       (np_mul e (np_pow T f))) T_range;
          P_calc = map np_exp lnP
      in case argmin (map (\<lambda>P. np_abs (np_sub P P_objetivo)) P_calc) of
           Inl err \<Rightarrow> Inl err
         | Inr idx \<Rightarrow> (if idx < length T_range then Inr (T_range ! idx) else Inl IndexError))"

section \<open>The selected pair of components\<close>

text \<open>A row of the coefficient table \<open>df\<close>, with its columns.\<close>

record fila =
  Component :: string
  col_a :: npfloat
  col_b :: npfloat
  col_c :: npfloat
  col_d :: npfloat
  col_e :: npfloat
  col_f :: npfloat

text \<open>\<open>s.split(sep)\<close> of Python with a separator of one character.\<close>

fun str_split :: "char \<Rightarrow> string \<Rightarrow> string list" where
  "str_split sep [] = [[]]"
| "str_split sep (ch # s) =
     (if ch = sep then [] # str_split sep s
      else (case str_split sep s of [] \<Rightarrow> [[ch]] | p # ps \<Rightarrow> (ch # p) # ps))"

text \<open>\<open>.iloc[0]\<close> of pandas: the first row, \<open>IndexError\<close> when there is none.\<close>

definition iloc0 :: "'a list \<Rightarrow> py_error + 'a" where
  "iloc0 rows = (case rows of [] \<Rightarrow> Inl IndexError | r # _ \<Rightarrow> Inr r)"

text \<open>
  The pair analysis of \<open>actualizar_graficos\<close>, which no \<open>try\<close> encloses:
  \<^verbatim>\<open>
  nombre1, nombre2 = par_componentes.split("|")
  fila1 = df[df["Component"] == nombre1].iloc[0]
  fila2 = df[df["Component"] == nombre2].iloc[0]
  T1 = calcular_ebullicion(Ptarget, fila1['a'], ..., fila1['f'])
  T2 = calcular_ebullicion(Ptarget, fila2['a'], ..., fila2['f'])
  ... y=[abs(T2 - T1)]
  \<close>
  The dropdown gives \<open>None\<close> when it is cleared; unpacking anything but two names raises
  \<open>ValueError\<close>.
\<close>

definition ebullicion_fila :: "npfloat \<Rightarrow> fila \<Rightarrow> py_error + npfloat" where
  "ebullicion_fila Ptarget r =
     calcular_ebullicion Ptarget (col_a r) (col_b r) (col_c r) (col_d r) (col_e r) (col_f r)"

definition diferencia_par :: "fila list \<Rightarrow> npfloat \<Rightarrow> string option \<Rightarrow> py_error + npfloat" where
  "diferencia_par df Ptarget par_componentes =
     (case par_componentes of
        None \<Rightarrow> Inl AttributeError
      | Some par \<Rightarrow>
          (case str_split (CHR ''|'') par of
             [nombre1, nombre2] \<Rightarrow>
               (case iloc0 (filter (\<lambda>r. Component r = nombre1) df) of
                  Inl err \<Rightarrow> Inl err
                | Inr fila1 \<Rightarrow>
                    (case iloc0 (filter (\<lambda>r. Component r = nombre2) df) of
                       Inl err \<Rightarrow> Inl err
                     | Inr fila2 \<Rightarrow>
                         (case ebullicion_fila Ptarget fila1 of
                            Inl err \<Rightarrow> Inl err
                          | Inr T1 \<Rightarrow>
                              (case ebullicion_fila Ptarget fila2 of
                                 Inl err \<Rightarrow> Inl err
                               | Inr T2 \<Rightarrow> Inr (np_abs (np_sub T2 T1))))))
           | _ \<Rightarrow> Inl ValueError))"

section \<open>Names for the statements\<close>

text \<open>The exponent of \<open>calcular_presion_vapor\<close>, its local \<open>lnP\<close>.\<close>

definition antoine_lnP ::
  "npfloat \<Rightarrow> npfloat \<Rightarrow> npfloat \<Rightarrow> npfloat \<Rightarrow> npfloat \<Rightarrow> npfloat \<Rightarrow> npfloat \<Rightarrow> npfloat" where
  "antoine_lnP T a b c d e f =
     np_add (np_add (np_add a (np_div b (np_add T c))) (np_mul d (np_log T)))
       (np_mul e (np_pow T f))"

text \<open>The locals of \<open>calcular_ebullicion\<close>: the grid, the pressures on it, their distances.\<close>

definition T_range :: "npfloat list" where
  "T_range = linspace 200 700 1000"

definition P_calc ::
  "npfloat \<Rightarrow> npfloat \<Rightarrow> npfloat \<Rightarrow> npfloat \<Rightarrow> npfloat \<Rightarrow> npfloat \<Rightarrow> npfloat list" where
  "P_calc a b c d e f = map (\<lambda>T. calcular_presion_vapor T a b c d e f) T_range"

definition abs_diff ::
  "npfloat \<Rightarrow> npfloat \<Rightarrow> npfloat \<Rightarrow> npfloat \<Rightarrow> npfloat \<Rightarrow> npfloat \<Rightarrow> npfloat \<Rightarrow> npfloat list" where
  "abs_diff P_objetivo a b c d e f =
     map (\<lambda>P. np_abs (np_sub P P_objetivo)) (P_calc a b c d e f)"


text \<open>
  The values that a float64 operation returns unchanged in this model: within the range,
  and zero or above the underflow threshold.
\<close>

definition in_range :: "real \<Rightarrow> bool" where
  "in_range x = (\<bar>x\<bar> \<le> MAXF \<and> (x = 0 \<or> TINY < \<bar>x\<bar>))"

text \<open>
  The coefficients of the specification's example (water, fitted for degrees Celsius and
  kPa) and its target pressure, one atmosphere in kPa.
\<close>

definition a_agua :: real where "a_agua = 16.3872"
definition b_agua :: real where "b_agua = - 3885.70"
definition c_agua :: real where "c_agua = 230.170"
definition P_atm :: real where "P_atm = 101.325"

definition lnP_agua :: "real \<Rightarrow> real" where
  "lnP_agua t = a_agua + b_agua / (t + c_agua)"

section \<open>The float64 range\<close>

lemma MAXF_bounds: "2 ^ 1023 \<le> MAXF" "MAXF < 2 ^ 1024"
  unfolding MAXF_def by simp_all

lemma MAXF_pos: "0 < MAXF"
  unfolding MAXF_def by simp

lemma TINY_bounds: "0 < TINY" "TINY < 1 / 2 ^ 1000"
  unfolding TINY_def by simp_all

lemma overflow_Fin: "\<bar>x\<bar> \<le> MAXF \<Longrightarrow> overflow x = Fin x"
  unfolding overflow_def by auto

lemma rnd_zero [simp]: "rnd 0 = Fin 0"
  unfolding rnd_def using TINY_bounds(1) by simp

lemma rnd_in_range: "in_range x \<Longrightarrow> rnd x = Fin x"
  unfolding rnd_def in_range_def using TINY_bounds(1) by (auto simp: overflow_Fin)


lemma in_range_mid: "1 / 2 ^ 1000 \<le> \<bar>x\<bar> \<Longrightarrow> \<bar>x\<bar> \<le> 2 ^ 1023 \<Longrightarrow> in_range x"
  unfolding in_range_def using MAXF_bounds(1) TINY_bounds(2) by linarith

lemma in_range_zero [simp]: "in_range 0"
  unfolding in_range_def using MAXF_pos by simp

lemma calcular_presion_vapor_lnP:
  "calcular_presion_vapor T a b c d e f = np_exp (antoine_lnP T a b c d e f)"
  unfolding calcular_presion_vapor_def antoine_lnP_def Let_def ..

lemma pow3_600: "(3::real) ^ 600 \<le> 2 ^ 1000"
  by simp

lemma exp_le_pow3:
  assumes "x \<le> 600" shows "exp x \<le> (3::real) ^ 600"
proof -
  have "exp x \<le> exp (of_nat 600 * (1::real))" using assms by simp
  also have "\<dots> = exp 1 ^ 600" by (rule exp_of_nat_mult)
  also have "\<dots> \<le> 3 ^ 600" by (intro power_mono exp_le) auto
  finally show ?thesis .
qed

lemma in_range_exp:
  assumes "\<bar>x\<bar> \<le> 600" shows "in_range (exp x)"
proof (rule in_range_mid)
  have up: "exp x \<le> 2 ^ 1000" using exp_le_pow3[of x] pow3_600 assms by linarith
  have "(2::real) ^ 1000 \<le> 2 ^ 1023" by (rule power_increasing) auto
  then show "\<bar>exp x\<bar> \<le> 2 ^ 1023" using up by simp
  have "exp (- x) \<le> 2 ^ 1000" using exp_le_pow3[of "- x"] pow3_600 assms by linarith
  then have "1 / 2 ^ 1000 \<le> 1 / exp (- x)" by (intro divide_left_mono) auto
  also have "1 / exp (- x) = exp x" by (simp add: exp_minus field_simps)
  finally show "1 / 2 ^ 1000 \<le> \<bar>exp x\<bar>" by simp
qed

lemma not_finite_add_left: "\<not> isfinite x \<Longrightarrow> \<not> isfinite (np_add x y)"
  by (cases x; cases y) auto

lemma not_finite_add_right: "\<not> isfinite y \<Longrightarrow> \<not> isfinite (np_add x y)"
  by (cases x; cases y) auto

lemma not_finite_div_zero: "\<not> isfinite (np_div b (Fin 0))"
  by (cases b) (auto simp: signed_inf_def)

lemma not_finite_mul_log: "np_le T (Fin 0) \<Longrightarrow> \<not> isfinite (np_mul d (np_log T))"
  by (cases T; cases d) (auto simp: signed_inf_def sgn_if)

lemma np_exp_not_finite: "\<not> isfinite x \<Longrightarrow> np_exp x = NaN \<or> np_exp x = PInf \<or> np_exp x = Fin 0"
  by (cases x) auto

lemma antoine_lnP_not_finite:
  assumes "np_add T c = Fin 0 \<or> np_le T (Fin 0)"
  shows "\<not> isfinite (antoine_lnP T a b c d e f)"
proof -
  let ?q = "np_add a (np_div b (np_add T c))"
  have "\<not> isfinite (np_add ?q (np_mul d (np_log T)))"
  proof (cases "np_add T c = Fin 0")
    case True
    then have "\<not> isfinite ?q"
      by (simp add: not_finite_add_right not_finite_div_zero)
    then show ?thesis by (rule not_finite_add_left)
  next
    case False
    with assms have "np_le T (Fin 0)" by simp
    then show ?thesis by (intro not_finite_add_right not_finite_mul_log)
  qed
  then show ?thesis unfolding antoine_lnP_def by (rule not_finite_add_left)
qed

lemma presion_zero_value:
  "calcular_presion_vapor (Fin 300) (Fin 0) (Fin (- 1)) (Fin (- 300)) (Fin 0) (Fin 0) (Fin 0) = Fin 0"
  unfolding calcular_presion_vapor_def Let_def
  by (simp add: overflow_Fin MAXF_pos less_imp_le signed_inf_def)

section \<open>The search for the minimum\<close>

lemma np_le_refl: "\<not> isnan x \<Longrightarrow> np_le x x"
  by (cases x) auto

lemma np_le_trans: "np_le x y \<Longrightarrow> np_le y z \<Longrightarrow> np_le x z"
  by (cases x; cases y; cases z) auto

lemma np_le_total: "\<not> isnan x \<Longrightarrow> \<not> isnan y \<Longrightarrow> np_le x y \<or> np_le y x"
  by (cases x; cases y) auto

lemma np_le_nan_left: "np_le x y \<Longrightarrow> \<not> isnan x"
  by (cases x; cases y) auto

lemma np_le_nan_right: "np_le x y \<Longrightarrow> \<not> isnan y"
  by (cases x; cases y) auto

lemma np_le_antisym: "np_le x y \<Longrightarrow> np_le y x \<Longrightarrow> x = y"
  by (cases x; cases y) auto

lemma argmin_loop_range:
  "argmin_loop mp m i xs = m \<or> (i \<le> argmin_loop mp m i xs \<and> argmin_loop mp m i xs < i + length xs)"
proof (induction xs arbitrary: mp m i)
  case Nil
  then show ?case by simp
next
  case (Cons x xs)
  show ?case
    using Cons.IH[of x i "Suc i"] Cons.IH[of mp m "Suc i"] by auto
qed

lemma argmin_loop_first_nan:
  assumes "\<not> isnan mp" "k < length xs" "isnan (xs ! k)" "\<forall>j<k. \<not> isnan (xs ! j)"
  shows "argmin_loop mp m i xs = i + k"
  using assms
proof (induction xs arbitrary: mp m i k)
  case Nil
  then show ?case by simp
next
  case (Cons x xs)
  show ?case
  proof (cases k)
    case 0
    with Cons.prems have "isnan x" by simp
    then have "\<not> np_le mp x" using np_le_nan_right by blast
    with \<open>isnan x\<close> 0 show ?thesis by simp
  next
    case (Suc k')
    with Cons.prems have x: "\<not> isnan x" by auto
    from Suc Cons.prems have k': "k' < length xs" "isnan (xs ! k')" "\<forall>j<k'. \<not> isnan (xs ! j)"
      by auto
    have "argmin_loop x i (Suc i) xs = Suc i + k'"
      using Cons.IH[OF x k'] .
    moreover have "argmin_loop mp m (Suc i) xs = Suc i + k'"
      using Cons.IH[OF Cons.prems(1) k'] .
    ultimately show ?thesis using Suc x by simp
  qed
qed

lemma argmin_loop_first_min:
  assumes "\<forall>y\<in>set ys. \<not> isnan y" "m < i" "i \<le> length ys"
    and "\<forall>j<i. np_le (ys ! m) (ys ! j)" "\<forall>j<m. \<not> np_le (ys ! j) (ys ! m)"
  shows "argmin_loop (ys ! m) m i (drop i ys) < length ys \<and>
         (\<forall>j<length ys. np_le (ys ! argmin_loop (ys ! m) m i (drop i ys)) (ys ! j)) \<and>
         (\<forall>j<argmin_loop (ys ! m) m i (drop i ys). \<not> np_le (ys ! j) (ys ! argmin_loop (ys ! m) m i (drop i ys)))"
  using assms
proof (induction "length ys - i" arbitrary: m i)
  case 0
  then have "drop i ys = []" "i = length ys" by auto
  with 0 show ?case by auto
next
  case (Suc n)
  then have i: "i < length ys" by linarith
  then have dr: "drop i ys = ys ! i # drop (Suc i) ys"
    by (simp add: Cons_nth_drop_Suc)
  have nn: "\<not> isnan (ys ! j)" if "j < length ys" for j
    using Suc.prems(1) that by simp
  show ?case
  proof (cases "np_le (ys ! m) (ys ! i)")
    case True
    have a: "\<forall>j<Suc i. np_le (ys ! m) (ys ! j)"
      using Suc.prems(4) True less_Suc_eq by auto
    have "n = length ys - Suc i" using Suc.hyps(2) by linarith
    from Suc.hyps(1)[OF this Suc.prems(1) _ _ a Suc.prems(5)] Suc.prems(2) i
    show ?thesis using True dr by simp
  next
    case False
    have lt: "np_le (ys ! i) (ys ! m)"
      using np_le_total[OF nn[OF i] nn[of m]] False Suc.prems(2) i by auto
    have a: "\<forall>j<Suc i. np_le (ys ! i) (ys ! j)"
    proof (intro allI impI)
      fix j assume "j < Suc i"
      then consider "j = i" | "j < i" by linarith
      then show "np_le (ys ! i) (ys ! j)"
      proof cases
        case 1
        then show ?thesis using np_le_refl[OF nn[OF i]] by simp
      next
        case 2
        then show ?thesis using np_le_trans[OF lt] Suc.prems(4) by blast
      qed
    qed
    have b: "\<forall>j<i. \<not> np_le (ys ! j) (ys ! i)"
    proof (intro allI impI notI)
      fix j assume "j < i" "np_le (ys ! j) (ys ! i)"
      then have "np_le (ys ! m) (ys ! i)"
        using np_le_trans Suc.prems(4) by blast
      with False show False by simp
    qed
    have "n = length ys - Suc i" using Suc.hyps(2) by linarith
    from Suc.hyps(1)[OF this Suc.prems(1) _ _ a b] i
    show ?thesis using False dr nn[OF i] by simp
  qed
qed

lemma argmin_nonempty:
  assumes "ys \<noteq> []"
  shows "\<exists>r<length ys. argmin ys = Inr r"
proof (cases ys)
  case Nil
  with assms show ?thesis by simp
next
  case (Cons x rest)
  then show ?thesis
    using argmin_loop_range[of x 0 1 rest] by (auto simp: argmin_def)
qed

lemma argmin_first_nan:
  assumes "k < length ys" "isnan (ys ! k)" "\<forall>j<k. \<not> isnan (ys ! j)"
  shows "argmin ys = Inr k"
proof (cases ys)
  case Nil
  with assms show ?thesis by simp
next
  case (Cons x rest)
  show ?thesis
  proof (cases k)
    case 0
    with assms Cons show ?thesis by (simp add: argmin_def)
  next
    case (Suc k')
    with assms Cons have x: "\<not> isnan x" by auto
    from Suc assms Cons have "k' < length rest" "isnan (rest ! k')" "\<forall>j<k'. \<not> isnan (rest ! j)"
      by auto
    from argmin_loop_first_nan[OF x this, of 0 1] show ?thesis
      using Cons Suc x by (simp add: argmin_def)
  qed
qed

lemma argmin_first_min:
  assumes "ys \<noteq> []" "\<forall>y\<in>set ys. \<not> isnan y"
  shows "\<exists>r<length ys. argmin ys = Inr r \<and> (\<forall>j<length ys. np_le (ys ! r) (ys ! j)) \<and>
           (\<forall>j<r. \<not> np_le (ys ! j) (ys ! r))"
proof (cases ys)
  case Nil
  with assms show ?thesis by simp
next
  case (Cons x rest)
  have x: "\<not> isnan x" using assms(2) Cons by simp
  have "\<forall>j<1. np_le (ys ! 0) (ys ! j)" using Cons x by (simp add: np_le_refl)
  from argmin_loop_first_min[OF assms(2), of 0 1, OF _ _ this]
  show ?thesis using Cons x by (auto simp: argmin_def)
qed

section \<open>The grid and the result of the search\<close>

lemma T_range_length [simp]: "length T_range = 1000"
  unfolding T_range_def linspace_def by simp

lemma T_range_nth: "i < 1000 \<Longrightarrow> T_range ! i = Fin (200 + real i * (500 / 999))"
  unfolding T_range_def linspace_def by simp

lemma P_calc_length [simp]: "length (P_calc a b c d e f) = 1000"
  unfolding P_calc_def by simp

lemma P_calc_nth:
  "i < 1000 \<Longrightarrow> P_calc a b c d e f ! i = calcular_presion_vapor (T_range ! i) a b c d e f"
  unfolding P_calc_def by simp

lemma abs_diff_length: "length (abs_diff P_objetivo a b c d e f) = 1000"
  unfolding abs_diff_def by simp

lemma abs_diff_nth:
  "i < 1000 \<Longrightarrow> abs_diff P_objetivo a b c d e f ! i = np_abs (np_sub (P_calc a b c d e f ! i) P_objetivo)"
  unfolding abs_diff_def by simp

lemma calcular_ebullicion_argmin:
  "calcular_ebullicion P_objetivo a b c d e f =
     (case argmin (abs_diff P_objetivo a b c d e f) of
        Inl err \<Rightarrow> Inl err
      | Inr idx \<Rightarrow> (if idx < length T_range then Inr (T_range ! idx) else Inl IndexError))"
  unfolding calcular_ebullicion_def abs_diff_def P_calc_def calcular_presion_vapor_def T_range_def Let_def
  by (simp add: comp_def)

lemma ebullicion_index:
  "\<exists>r<1000. argmin (abs_diff P_objetivo a b c d e f) = Inr r \<and>
      calcular_ebullicion P_objetivo a b c d e f = Inr (T_range ! r)"
proof -
  have "abs_diff P_objetivo a b c d e f \<noteq> []"
    using abs_diff_length[of P_objetivo a b c d e f] by auto
  from argmin_nonempty[OF this] show ?thesis
    by (auto simp: calcular_ebullicion_argmin abs_diff_length)
qed

lemma ebullicion_first_min:
  assumes "\<forall>i<1000. \<not> isnan (abs_diff P_objetivo a b c d e f ! i)"
  shows "\<exists>r<1000. calcular_ebullicion P_objetivo a b c d e f = Inr (T_range ! r) \<and>
           (\<forall>j<1000. np_le (abs_diff P_objetivo a b c d e f ! r) (abs_diff P_objetivo a b c d e f ! j)) \<and>
           (\<forall>j<r. \<not> np_le (abs_diff P_objetivo a b c d e f ! j) (abs_diff P_objetivo a b c d e f ! r))"
proof -
  let ?D = "abs_diff P_objetivo a b c d e f"
  have ne: "?D \<noteq> []" using abs_diff_length[of P_objetivo a b c d e f] by auto
  have "\<forall>y\<in>set ?D. \<not> isnan y"
    using assms by (auto simp: in_set_conv_nth abs_diff_length)
  from argmin_first_min[OF ne this] show ?thesis
    by (auto simp: calcular_ebullicion_argmin abs_diff_length)
qed

lemma ebullicion_first_nan:
  assumes "k < 1000" "isnan (abs_diff P_objetivo a b c d e f ! k)"
    and "\<forall>j<k. \<not> isnan (abs_diff P_objetivo a b c d e f ! j)"
  shows "calcular_ebullicion P_objetivo a b c d e f = Inr (T_range ! k)"
proof -
  have "argmin (abs_diff P_objetivo a b c d e f) = Inr k"
    using assms by (intro argmin_first_nan) (auto simp: abs_diff_length)
  then show ?thesis using assms(1) by (simp add: calcular_ebullicion_argmin)
qed

lemma isnan_abs_sub_Fin: "isnan (np_abs (np_sub P (Fin p))) = isnan P"
  by (cases P) (auto simp: np_sub_def overflow_def)

subsection \<open>Values on the grid\<close>

lemma grid_bounds:
  assumes "i < 1000"
  shows "200 \<le> 200 + real i * (500 / 999)" "200 + real i * (500 / 999) \<le> (700::real)"
proof -
  show "200 \<le> 200 + real i * (500 / 999)" by simp
  have "real i \<le> 999" using assms by simp
  then have "real i * (500 / 999) \<le> 999 * (500 / 999)"
    by (intro mult_right_mono) auto
  then show "200 + real i * (500 / 999) \<le> (700::real)" by simp
qed

lemma overflow_small: "\<bar>x\<bar> \<le> 2 ^ 1023 \<Longrightarrow> overflow x = Fin x"
  using MAXF_bounds(1) by (intro overflow_Fin) linarith

lemma in_range_one [simp]: "in_range 1"
  by (rule in_range_mid) simp_all

subsection \<open>All coefficients zero: a constant pressure\<close>

lemma presion_constant:
  assumes "0 < t" "t \<le> 700"
  shows "calcular_presion_vapor (Fin t) (Fin 0) (Fin 0) (Fin 0) (Fin 0) (Fin 0) (Fin 0) = Fin 1"
proof -
  have "\<bar>t\<bar> \<le> 2 ^ 1023" using assms by simp
  then have "overflow t = Fin t" by (rule overflow_small)
  moreover have "overflow 0 = Fin 0" by (rule overflow_small) simp
  ultimately show ?thesis
    using assms unfolding calcular_presion_vapor_def Let_def
    by (simp add: rnd_in_range)
qed

lemma abs_diff_constant:
  assumes "i < 1000"
  shows "abs_diff (Fin 1) (Fin 0) (Fin 0) (Fin 0) (Fin 0) (Fin 0) (Fin 0) ! i = Fin 0"
proof -
  have "overflow 0 = Fin 0" by (rule overflow_small) simp
  then show ?thesis
    using assms grid_bounds[OF assms]
    by (simp add: abs_diff_nth P_calc_nth T_range_nth presion_constant np_sub_def)
qed

lemma overflow_zero [simp]: "overflow 0 = Fin 0"
  by (rule overflow_small) simp

lemma T_range_0: "T_range ! 0 = Fin 200"
  by (simp add: T_range_nth)

lemma T_range_1: "T_range ! 1 = Fin (200300 / 999)" "T_range ! Suc 0 = Fin (200300 / 999)"
  using T_range_nth[of 1] by simp_all

lemma T_range_999: "T_range ! 999 = Fin 700"
  by (simp add: T_range_nth)

subsection \<open>A NaN on the grid\<close>

text \<open>Coefficients with \<open>b = 0\<close> and \<open>c = -200\<close>: \<open>0 / 0\<close> at the first grid point.\<close>

lemma P_calc_nan_first:
  "P_calc (Fin 0) (Fin 0) (Fin (- 200)) (Fin 0) (Fin 0) (Fin 0) ! 0 = NaN"
  by (simp add: P_calc_nth T_range_0 calcular_presion_vapor_def signed_inf_def)

lemma P_calc_nan_first_next:
  "P_calc (Fin 0) (Fin 0) (Fin (- 200)) (Fin 0) (Fin 0) (Fin 0) ! Suc 0 = Fin 1"
proof -
  have "overflow (500 / 999) = Fin (500 / 999)" by (rule overflow_small) simp
  then show ?thesis
    by (simp add: P_calc_nth T_range_1 calcular_presion_vapor_def rnd_in_range)
qed

text \<open>Coefficients with \<open>b = 0\<close> and \<open>c = -T_range[1] = -200300/999\<close>: \<open>0 / 0\<close> at the second grid point.\<close>

lemma P_calc_nan_second:
  "P_calc (Fin 0) (Fin 0) (Fin (- (200300 / 999))) (Fin 0) (Fin 0) (Fin 0) ! 0 = Fin 1"
  "P_calc (Fin 0) (Fin 0) (Fin (- (200300 / 999))) (Fin 0) (Fin 0) (Fin 0) ! Suc 0 = NaN"
proof -
  have "overflow (- (500 / 999)) = Fin (- (500 / 999))" by (rule overflow_small) simp
  then show "P_calc (Fin 0) (Fin 0) (Fin (- (200300 / 999))) (Fin 0) (Fin 0) (Fin 0) ! 0 = Fin 1"
    by (simp add: P_calc_nth T_range_0 calcular_presion_vapor_def rnd_in_range)
  show "P_calc (Fin 0) (Fin 0) (Fin (- (200300 / 999))) (Fin 0) (Fin 0) (Fin 0) ! Suc 0 = NaN"
    by (simp add: P_calc_nth T_range_1 calcular_presion_vapor_def signed_inf_def)
qed

subsection \<open>The selection and the rows it names\<close>

lemma str_split_no_sep: "sep \<notin> set s \<Longrightarrow> str_split sep s = [s]"
  by (induction s) auto

lemma str_split_at_sep:
  "sep \<notin> set s1 \<Longrightarrow> str_split sep (s1 @ sep # s2) = s1 # str_split sep s2"
  by (induction s1) auto

lemma str_split_pair:
  assumes "sep \<notin> set s1" "sep \<notin> set s2"
  shows "str_split sep (s1 @ sep # s2) = [s1, s2]"
  using assms by (simp add: str_split_at_sep str_split_no_sep)

lemma iloc0_absent:
  "nombre \<notin> Component ` set df \<Longrightarrow> iloc0 (filter (\<lambda>r. Component r = nombre) df) = Inl IndexError"
proof -
  assume "nombre \<notin> Component ` set df"
  then have "filter (\<lambda>r. Component r = nombre) df = []"
    by (auto simp: filter_empty_conv)
  then show ?thesis by (simp add: iloc0_def)
qed

lemma iloc0_cases:
  "iloc0 rows = Inl IndexError \<or> (\<exists>r. iloc0 rows = Inr r)"
  by (cases rows) (auto simp: iloc0_def)

subsection \<open>The coefficients of the example\<close>

lemma in_range_moderate: "1 \<le> \<bar>x\<bar> \<Longrightarrow> \<bar>x\<bar> \<le> 1000 \<Longrightarrow> in_range x"
proof (rule in_range_mid)
  assume a: "1 \<le> \<bar>x\<bar>" "\<bar>x\<bar> \<le> 1000"
  have "(1::real) / 2 ^ 1000 \<le> 1" by simp
  then show "1 / 2 ^ 1000 \<le> \<bar>x\<bar>" using a(1) by linarith
  have "(1000::real) \<le> 2 ^ 1023" by simp
  then show "\<bar>x\<bar> \<le> 2 ^ 1023" using a(2) by linarith
qed

lemma overflow_moderate: "\<bar>x\<bar> \<le> 1000 \<Longrightarrow> overflow x = Fin x"
proof (rule overflow_small)
  assume "\<bar>x\<bar> \<le> 1000"
  moreover have "(1000::real) \<le> 2 ^ 1023" by simp
  ultimately show "\<bar>x\<bar> \<le> 2 ^ 1023" by linarith
qed

lemma exp_7_ge: "(128::real) \<le> exp 7"
proof -
  have "(2::real) \<le> exp 1" using exp_ge_add_one_self[of 1] by simp
  then have "(2::real) ^ 7 \<le> exp 1 ^ 7" by (intro power_mono) auto
  also have "exp 1 ^ 7 = exp (of_nat 7 * (1::real))" by (rule exp_of_nat_mult[symmetric])
  finally show ?thesis by simp
qed

lemma cociente_agua:
  assumes "200 \<le> t" "t \<le> 700"
  shows "- 10 \<le> b_agua / (t + c_agua)" "b_agua / (t + c_agua) \<le> - 4"
proof -
  have s: "0 < t + c_agua" using assms unfolding c_agua_def by simp
  have "- 10 * (t + c_agua) \<le> b_agua" using assms unfolding b_agua_def c_agua_def by simp
  then show "- 10 \<le> b_agua / (t + c_agua)" using s by (simp add: pos_le_divide_eq)
  have "b_agua \<le> - 4 * (t + c_agua)" using assms unfolding b_agua_def c_agua_def by simp
  then show "b_agua / (t + c_agua) \<le> - 4" using s by (simp add: pos_divide_le_eq)
qed

lemma lnP_agua_bounds:
  assumes "200 \<le> t" "t \<le> 700"
  shows "7 \<le> lnP_agua t" "lnP_agua t \<le> 17"
proof -
  have s: "0 < t + c_agua" using assms unfolding c_agua_def by simp
  have "(7 - a_agua) * (t + c_agua) \<le> b_agua"
    using assms unfolding a_agua_def b_agua_def c_agua_def by simp
  then have "7 - a_agua \<le> b_agua / (t + c_agua)" using s by (simp add: pos_le_divide_eq)
  then show "7 \<le> lnP_agua t" unfolding lnP_agua_def by linarith
  have "a_agua \<le> 17" unfolding a_agua_def by simp
  then show "lnP_agua t \<le> 17" unfolding lnP_agua_def using cociente_agua(2)[OF assms] by linarith
qed

lemma lnP_agua_mono:
  assumes "200 \<le> t" "t \<le> t'"
  shows "lnP_agua t \<le> lnP_agua t'"
proof -
  have s: "0 < t + c_agua" "t + c_agua \<le> t' + c_agua" using assms unfolding c_agua_def by simp_all
  have "b_agua \<le> 0" unfolding b_agua_def by simp
  then have "b_agua / (t + c_agua) \<le> b_agua / (t' + c_agua)"
    using s by (intro divide_left_mono_neg) (auto intro!: mult_pos_pos)
  then show ?thesis unfolding lnP_agua_def by linarith
qed

lemma presion_agua:
  assumes "200 \<le> t" "t \<le> 700"
  shows "calcular_presion_vapor (Fin t) (Fin a_agua) (Fin b_agua) (Fin c_agua) (Fin 0) (Fin 0) (Fin 0)
           = Fin (exp (lnP_agua t))"
proof -
  have s: "0 < t + c_agua" "\<bar>t + c_agua\<bar> \<le> 1000" using assms unfolding c_agua_def by simp_all
  have 1: "overflow (t + c_agua) = Fin (t + c_agua)" using s(2) by (rule overflow_moderate)
  have "in_range (b_agua / (t + c_agua))"
    using cociente_agua[OF assms] by (intro in_range_moderate) linarith+
  then have 2: "rnd (b_agua / (t + c_agua)) = Fin (b_agua / (t + c_agua))" by (rule rnd_in_range)
  have Lb: "\<bar>lnP_agua t\<bar> \<le> 600" using lnP_agua_bounds[OF assms] by linarith
  then have 3: "overflow (lnP_agua t) = Fin (lnP_agua t)" by (intro overflow_moderate) linarith
  have 4: "rnd (exp (lnP_agua t)) = Fin (exp (lnP_agua t))"
    using Lb by (intro rnd_in_range in_range_exp)
  have t: "\<not> t < 0" "t \<noteq> 0" using assms by simp_all
  have "np_add (Fin a_agua) (np_div (Fin b_agua) (np_add (Fin t) (Fin c_agua))) = Fin (lnP_agua t)"
    using s(1) 1 2 3 by (simp add: lnP_agua_def)
  then show ?thesis
    unfolding calcular_presion_vapor_def Let_def using t 3 4 by simp
qed

lemma presion_agua_above:
  assumes "200 \<le> t" "t \<le> 700"
  shows "P_atm < exp (lnP_agua t)" "exp (lnP_agua t) \<le> 2 ^ 1000"
proof -
  have "exp 7 \<le> exp (lnP_agua t)" using lnP_agua_bounds(1)[OF assms] by simp
  moreover have "P_atm < 128" unfolding P_atm_def by simp
  ultimately show "P_atm < exp (lnP_agua t)" using exp_7_ge by linarith
  have "lnP_agua t \<le> 600" using lnP_agua_bounds(2)[OF assms] by linarith
  then show "exp (lnP_agua t) \<le> 2 ^ 1000" using exp_le_pow3 pow3_600 by (meson order_trans)
qed

lemma abs_diff_agua:
  assumes "i < 1000"
  shows "abs_diff (Fin P_atm) (Fin a_agua) (Fin b_agua) (Fin c_agua) (Fin 0) (Fin 0) (Fin 0) ! i
           = Fin (exp (lnP_agua (200 + real i * (500 / 999))) - P_atm)"
proof -
  let ?t = "200 + real i * (500 / 999)"
  note gb = grid_bounds[OF assms]
  have b: "P_atm < exp (lnP_agua ?t)" "exp (lnP_agua ?t) \<le> 2 ^ 1000"
    using presion_agua_above[OF gb] by simp_all
  have "(2::real) ^ 1000 \<le> 2 ^ 1023" by (rule power_increasing) auto
  moreover have "0 \<le> P_atm" unfolding P_atm_def by simp
  ultimately have "\<bar>exp (lnP_agua ?t) - P_atm\<bar> \<le> 2 ^ 1023" using b by linarith
  then have "overflow (exp (lnP_agua ?t) - P_atm) = Fin (exp (lnP_agua ?t) - P_atm)"
    by (rule overflow_small)
  moreover have "P_calc (Fin a_agua) (Fin b_agua) (Fin c_agua) (Fin 0) (Fin 0) (Fin 0) ! i
      = Fin (exp (lnP_agua ?t))"
    using assms presion_agua[OF gb] by (simp only: P_calc_nth T_range_nth)
  ultimately show ?thesis
    using assms b(1) by (simp add: abs_diff_nth np_sub_def)
qed

lemma ebullicion_agua:
  "calcular_ebullicion (Fin P_atm) (Fin a_agua) (Fin b_agua) (Fin c_agua) (Fin 0) (Fin 0) (Fin 0)
     = Inr (Fin 200)"
proof -
  let ?D = "abs_diff (Fin P_atm) (Fin a_agua) (Fin b_agua) (Fin c_agua) (Fin 0) (Fin 0) (Fin 0)"
  have nn: "\<forall>i<1000. \<not> isnan (?D ! i)" by (simp add: abs_diff_agua)
  from ebullicion_first_min[OF nn] obtain r where r: "r < 1000"
    "calcular_ebullicion (Fin P_atm) (Fin a_agua) (Fin b_agua) (Fin c_agua) (Fin 0) (Fin 0) (Fin 0)
       = Inr (T_range ! r)"
    "\<forall>j<r. \<not> np_le (?D ! j) (?D ! r)"
    by blast
  have "r = 0"
  proof (rule ccontr)
    assume "r \<noteq> 0"
    then have "\<not> np_le (?D ! 0) (?D ! r)" using r(3) by simp
    moreover have "lnP_agua 200 \<le> lnP_agua (200 + real r * (500 / 999))"
      by (rule lnP_agua_mono) simp_all
    ultimately show False using r(1) by (simp add: abs_diff_agua)
  qed
  with r(2) show ?thesis by (simp add: T_range_0)
qed

lemma P_calc_agua:
  assumes "i < 1000"
  shows "\<exists>p. P_calc (Fin a_agua) (Fin b_agua) (Fin c_agua) (Fin 0) (Fin 0) (Fin 0) ! i = Fin p \<and> P_atm < p"
  using assms presion_agua[OF grid_bounds[OF assms]] presion_agua_above(1)[OF grid_bounds[OF assms]]
  by (simp only: P_calc_nth T_range_nth) blast

subsection \<open>Finite pressures and their differences\<close>

lemma rnd_Fin_bounds:
  assumes "rnd x = Fin y" "0 \<le> x"
  shows "0 \<le> y" "y \<le> MAXF"
  using assms MAXF_pos unfolding rnd_def overflow_def by (auto split: if_splits)

lemma np_exp_Fin_bounds:
  assumes "np_exp v = Fin y"
  shows "0 \<le> y \<and> y \<le> MAXF"
proof (cases v)
  case (Fin x)
  with assms have "rnd (exp x) = Fin y" by simp
  from rnd_Fin_bounds[OF this] show ?thesis by simp
next
  case NInf
  with assms MAXF_pos show ?thesis by auto
qed (use assms in auto)

lemma presion_Fin_bounds:
  assumes "calcular_presion_vapor T a b c d e f = Fin y"
  shows "0 \<le> y" "y \<le> MAXF"
  using np_exp_Fin_bounds[of "antoine_lnP T a b c d e f" y] assms
  by (simp_all add: calcular_presion_vapor_lnP)


text \<open>The pressures that the function computes on the grid are in the range of C4.\<close>

lemma P_calc_Fin_bounds:
  assumes "j < 1000" "P_calc a b c d e f ! j = Fin y"
  shows "0 \<le> y" "y \<le> MAXF"
  using assms presion_Fin_bounds[of "T_range ! j" a b c d e f y] by (simp_all add: P_calc_nth)

subsection \<open>The search on a strictly monotone list of pressures\<close>



lemma T_range_step:
  assumes "k < 999" "T_range ! k = Fin t" "T_range ! Suc k = Fin t'"
  shows "t' - t = 500 / 999"
proof -
  have "t = 200 + real k * (500 / 999)" "t' = 200 + real (Suc k) * (500 / 999)"
    using assms by (simp_all add: T_range_nth)
  then show ?thesis by (simp add: field_simps)
qed

subsection \<open>The pressure equal to the temperature, and the constant one\<close>





section \<open>The vapor pressure\<close>

text \<open>
  C7, amended. When \<open>T + c\<close> is zero or \<open>T \<le> 0\<close>, the exponent \<open>lnP\<close> is not
  finite (NaN or an infinity), and \<open>calcular_presion_vapor\<close> returns its exponential
  without raising: NaN, \<open>+inf\<close>, or \<open>0.0\<close> when the exponent is \<open>-inf\<close>.
\<close>
theorem presion_vapor_undefined:
  assumes "np_add T c = Fin 0 \<or> np_le T (Fin 0)"
  shows "\<not> isfinite (antoine_lnP T a b c d e f) \<and>
         calcular_presion_vapor T a b c d e f = np_exp (antoine_lnP T a b c d e f) \<and>
         (calcular_presion_vapor T a b c d e f = NaN \<or>
          calcular_presion_vapor T a b c d e f = PInf \<or>
          calcular_presion_vapor T a b c d e f = Fin 0)"
  using antoine_lnP_not_finite[OF assms, of a b d e f] np_exp_not_finite
  by (simp add: calcular_presion_vapor_lnP)

theorem presion_vapor_undefined_witness:
  "np_le (Fin 0) (Fin 0) \<and>
   \<not> isfinite (antoine_lnP (Fin 0) (Fin 1) (Fin 1) (Fin 1) (Fin 0) (Fin 0) (Fin 0)) \<and>
   calcular_presion_vapor (Fin 0) (Fin 1) (Fin 1) (Fin 1) (Fin 0) (Fin 0) (Fin 0) = NaN"
proof -
  have h: "np_add (Fin 0) (Fin 1) = Fin 0 \<or> np_le (Fin 0) (Fin 0)" by simp
  have "overflow 1 = Fin 1" "overflow 2 = Fin 2" by (rule overflow_small, simp)+
  then have "calcular_presion_vapor (Fin 0) (Fin 1) (Fin 1) (Fin 1) (Fin 0) (Fin 0) (Fin 0) = NaN"
    unfolding calcular_presion_vapor_def Let_def
    by (simp add: rnd_in_range signed_inf_def)
  with presion_vapor_undefined[OF h, of "Fin 1" "Fin 1" "Fin 0" "Fin 0" "Fin 0"]
  show ?thesis by simp
qed

text \<open>
  The returned value is not always non-finite: at \<open>T = 300\<close>, \<open>c = -300\<close> and
  \<open>b = -1\<close> the quotient \<open>b / (T + c)\<close> is \<open>-inf\<close>, and the pressure is
  \<open>exp(-inf) = 0.0\<close>, a finite number.
\<close>

theorem presion_vapor_zero_counterexample:
  "np_add (Fin 300) (Fin (- 300)) = Fin 0 \<and>
   calcular_presion_vapor (Fin 300) (Fin 0) (Fin (- 1)) (Fin (- 300)) (Fin 0) (Fin 0) (Fin 0) = Fin 0 \<and>
   isfinite (calcular_presion_vapor (Fin 300) (Fin 0) (Fin (- 1)) (Fin (- 300)) (Fin 0) (Fin 0) (Fin 0))"
  by (simp add: presion_zero_value overflow_Fin MAXF_pos less_imp_le)

section \<open>The boiling temperature\<close>

text \<open>
  C5. For every target pressure and all coefficients, special values included,
  \<open>calcular_ebullicion\<close> raises nothing and returns one of the 1000 evenly spaced grid
  values \<open>200 + i * 500/999\<close>, \<open>i < 1000\<close>, each within \<open>[200, 700]\<close>: the result is
  read from the grid at the index found, never interpolated.
\<close>
theorem ebullicion_on_grid:
  "\<exists>i<1000. calcular_ebullicion P_objetivo a b c d e f = Inr (Fin (200 + real i * (500 / 999))) \<and>
      200 \<le> 200 + real i * (500 / 999) \<and> 200 + real i * (500 / 999) \<le> (700::real)"
proof -
  obtain r where r: "r < 1000" "calcular_ebullicion P_objetivo a b c d e f = Inr (T_range ! r)"
    using ebullicion_index by blast
  with grid_bounds[OF r(1)] show ?thesis by (auto simp: T_range_nth)
qed

text \<open>
  C6. When a grid point \<open>i\<close> attains the minimum of the absolute pressure differences
  (its difference is \<open><=\<close> every other one), the result is the grid temperature at the
  first index \<open>k\<close> with that same difference: \<open>k \<le> i\<close>, and no earlier index has it.
\<close>
theorem ebullicion_tie_break:
  assumes "i < 1000"
    and "\<forall>j<1000. np_le (abs_diff P_objetivo a b c d e f ! i) (abs_diff P_objetivo a b c d e f ! j)"
  shows "\<exists>k\<le>i. calcular_ebullicion P_objetivo a b c d e f = Inr (T_range ! k) \<and>
           abs_diff P_objetivo a b c d e f ! k = abs_diff P_objetivo a b c d e f ! i \<and>
           (\<forall>j<k. abs_diff P_objetivo a b c d e f ! j \<noteq> abs_diff P_objetivo a b c d e f ! k)"
proof -
  let ?D = "abs_diff P_objetivo a b c d e f"
  have nn: "\<forall>j<1000. \<not> isnan (?D ! j)"
    using assms(2) np_le_nan_right by blast
  from ebullicion_first_min[OF this] obtain r where r: "r < 1000"
    "calcular_ebullicion P_objetivo a b c d e f = Inr (T_range ! r)"
    "\<forall>j<1000. np_le (?D ! r) (?D ! j)" "\<forall>j<r. \<not> np_le (?D ! j) (?D ! r)"
    by blast
  have eq: "?D ! r = ?D ! i"
    using np_le_antisym r(1,3) assms by blast
  have le: "r \<le> i"
  proof (rule ccontr)
    assume "\<not> r \<le> i"
    then have "\<not> np_le (?D ! i) (?D ! r)" using r(4) by simp
    then show False using assms(2) r(1) by simp
  qed
  have "?D ! j \<noteq> ?D ! r" if "j < r" for j
  proof
    assume "?D ! j = ?D ! r"
    then have "np_le (?D ! j) (?D ! r)" using nn r(1) by (simp add: np_le_refl)
    then show False using r(4) that by simp
  qed
  with eq le r(2) show ?thesis by blast
qed

text \<open>
  With all coefficients zero the pressure is 1 on the whole grid; for the target 1 every
  grid point is a minimum, and the first one, 200, is returned.
\<close>

theorem ebullicion_tie_break_witness:
  "calcular_ebullicion (Fin 1) (Fin 0) (Fin 0) (Fin 0) (Fin 0) (Fin 0) (Fin 0) = Inr (Fin 200)"
proof -
  let ?D = "abs_diff (Fin 1) (Fin 0) (Fin 0) (Fin 0) (Fin 0) (Fin 0) (Fin 0)"
  have h: "\<forall>j<1000. np_le (?D ! 999) (?D ! j)"
    by (simp add: abs_diff_constant)
  from ebullicion_tie_break[of 999, OF _ h] obtain k where k: "k \<le> 999"
    "calcular_ebullicion (Fin 1) (Fin 0) (Fin 0) (Fin 0) (Fin 0) (Fin 0) (Fin 0) = Inr (T_range ! k)"
    "\<forall>j<k. ?D ! j \<noteq> ?D ! k"
    by auto
  have "k = 0"
  proof (rule ccontr)
    assume "k \<noteq> 0"
    then have "?D ! 0 \<noteq> ?D ! k" using k(3) by simp
    then show False using k(1) by (simp add: abs_diff_constant)
  qed
  with k(2) show ?thesis by (simp add: T_range_0)
qed

text \<open>
  C10. For a finite target pressure: when the computed pressure is NaN at grid index
  \<open>k\<close> and at no earlier index, \<open>calcular_ebullicion\<close> returns \<open>T_range[k]\<close>, whatever
  the target and the pressures elsewhere on the grid; it neither filters the point nor
  reports a failure.
\<close>
theorem ebullicion_first_nan_pressure:
  assumes "k < 1000" "isnan (P_calc a b c d e f ! k)"
    and "\<forall>j<k. \<not> isnan (P_calc a b c d e f ! j)"
  shows "calcular_ebullicion (Fin p) a b c d e f = Inr (T_range ! k)"
proof (rule ebullicion_first_nan[OF assms(1)])
  show "isnan (abs_diff (Fin p) a b c d e f ! k)"
    using assms(1,2) by (simp add: abs_diff_nth isnan_abs_sub_Fin)
  show "\<forall>j<k. \<not> isnan (abs_diff (Fin p) a b c d e f ! j)"
    using assms(1,3) by (simp add: abs_diff_nth isnan_abs_sub_Fin)
qed

theorem ebullicion_first_nan_pressure_witness:
  "calcular_ebullicion (Fin 101.325) (Fin 0) (Fin 0) (Fin (- (200300 / 999))) (Fin 0) (Fin 0) (Fin 0)
     = Inr (Fin (200300 / 999)) \<and>
   P_calc (Fin 0) (Fin 0) (Fin (- (200300 / 999))) (Fin 0) (Fin 0) (Fin 0) ! 0 = Fin 1"
  using ebullicion_first_nan_pressure[of 1 "Fin 0" "Fin 0" "Fin (- (200300 / 999))" "Fin 0" "Fin 0" "Fin 0" "101.325"]
  by (simp add: P_calc_nan_second T_range_1)

text \<open>
  C2, amended. The grid has 1000 evenly spaced temperatures from 200 to 700 in
  increasing order, and the pressure is computed at each of them by the formula of
  \<open>calcular_presion_vapor\<close>. When no absolute difference from the target is NaN, the
  result is a grid temperature whose pressure has the minimum absolute difference from
  \<open>P_objetivo\<close>.
\<close>
theorem ebullicion_minimum:
  assumes "\<forall>i<1000. \<not> isnan (abs_diff P_objetivo a b c d e f ! i)"
  shows "length T_range = 1000 \<and> T_range ! 0 = Fin 200 \<and> T_range ! 999 = Fin 700 \<and>
         (\<forall>i<1000. T_range ! i = Fin (200 + real i * (500 / 999))) \<and>
         (\<forall>i<1000. P_calc a b c d e f ! i = calcular_presion_vapor (T_range ! i) a b c d e f) \<and>
         (\<exists>r<1000. calcular_ebullicion P_objetivo a b c d e f = Inr (T_range ! r) \<and>
            (\<forall>j<1000. np_le (np_abs (np_sub (P_calc a b c d e f ! r) P_objetivo))
                            (np_abs (np_sub (P_calc a b c d e f ! j) P_objetivo))))"
proof -
  from ebullicion_first_min[OF assms] obtain r where r: "r < 1000"
    "calcular_ebullicion P_objetivo a b c d e f = Inr (T_range ! r)"
    "\<forall>j<1000. np_le (abs_diff P_objetivo a b c d e f ! r) (abs_diff P_objetivo a b c d e f ! j)"
    by blast
  then have "\<exists>r<1000. calcular_ebullicion P_objetivo a b c d e f = Inr (T_range ! r) \<and>
            (\<forall>j<1000. np_le (np_abs (np_sub (P_calc a b c d e f ! r) P_objetivo))
                            (np_abs (np_sub (P_calc a b c d e f ! j) P_objetivo)))"
    by (auto simp: abs_diff_nth)
  then show ?thesis
    by (simp add: T_range_nth P_calc_nth)
qed

theorem ebullicion_minimum_witness:
  "\<exists>r<1000. calcular_ebullicion (Fin 1) (Fin 0) (Fin 0) (Fin 0) (Fin 0) (Fin 0) (Fin 0) = Inr (T_range ! r) \<and>
      np_le (np_abs (np_sub (P_calc (Fin 0) (Fin 0) (Fin 0) (Fin 0) (Fin 0) (Fin 0) ! r) (Fin 1)))
            (np_abs (np_sub (P_calc (Fin 0) (Fin 0) (Fin 0) (Fin 0) (Fin 0) (Fin 0) ! 999) (Fin 1)))"
proof -
  have h: "\<forall>i<1000. \<not> isnan (abs_diff (Fin 1) (Fin 0) (Fin 0) (Fin 0) (Fin 0) (Fin 0) (Fin 0) ! i)"
    by (simp add: abs_diff_constant)
  from ebullicion_minimum[OF h] obtain r where "r < 1000"
    "calcular_ebullicion (Fin 1) (Fin 0) (Fin 0) (Fin 0) (Fin 0) (Fin 0) (Fin 0) = Inr (T_range ! r)"
    "\<forall>j<1000. np_le (np_abs (np_sub (P_calc (Fin 0) (Fin 0) (Fin 0) (Fin 0) (Fin 0) (Fin 0) ! r) (Fin 1)))
                    (np_abs (np_sub (P_calc (Fin 0) (Fin 0) (Fin 0) (Fin 0) (Fin 0) (Fin 0) ! j) (Fin 1)))"
    by blast
  then show ?thesis by (intro exI[of _ r]) simp
qed

text \<open>
  As the claim states it, for all coefficients: with \<open>b = 0\<close> and \<open>c = -200\<close> the
  pressure at the first grid point is NaN (\<open>0 / 0\<close>) and 1 elsewhere. For the target 1
  the result is the first grid point, whose difference NaN is not \<open><=\<close> the difference
  0 of the second.
\<close>

theorem ebullicion_minimum_nan_counterexample:
  "calcular_ebullicion (Fin 1) (Fin 0) (Fin 0) (Fin (- 200)) (Fin 0) (Fin 0) (Fin 0) = Inr (T_range ! 0) \<and>
   P_calc (Fin 0) (Fin 0) (Fin (- 200)) (Fin 0) (Fin 0) (Fin 0) ! 0 = NaN \<and>
   P_calc (Fin 0) (Fin 0) (Fin (- 200)) (Fin 0) (Fin 0) (Fin 0) ! 1 = Fin 1 \<and>
   \<not> np_le (np_abs (np_sub (P_calc (Fin 0) (Fin 0) (Fin (- 200)) (Fin 0) (Fin 0) (Fin 0) ! 0) (Fin 1)))
           (np_abs (np_sub (P_calc (Fin 0) (Fin 0) (Fin (- 200)) (Fin 0) (Fin 0) (Fin 0) ! 1) (Fin 1)))"
proof -
  have "calcular_ebullicion (Fin 1) (Fin 0) (Fin 0) (Fin (- 200)) (Fin 0) (Fin 0) (Fin 0) = Inr (T_range ! 0)"
    by (rule ebullicion_first_nan) (simp_all add: abs_diff_nth P_calc_nan_first np_sub_def)
  then show ?thesis
    by (simp add: P_calc_nan_first P_calc_nan_first_next np_sub_def)
qed

text \<open>
  C3, amended. For the coefficients \<open>a = 16.3872\<close>, \<open>b = -3885.70\<close>, \<open>c = 230.170\<close>,
  \<open>d = e = f = 0\<close> and the target 101.325 the result is 200, the lowest grid
  temperature: the computed pressure is above the target at every grid point and grows
  with the temperature.
\<close>
theorem ebullicion_agua_grid_minimum:
  "calcular_ebullicion (Fin 101.325) (Fin 16.3872) (Fin (- 3885.70)) (Fin 230.170) (Fin 0) (Fin 0) (Fin 0)
     = Inr (Fin 200) \<and>
   (\<forall>i<1000. \<exists>p. P_calc (Fin 16.3872) (Fin (- 3885.70)) (Fin 230.170) (Fin 0) (Fin 0) (Fin 0) ! i = Fin p \<and>
       101.325 < p)"
  using ebullicion_agua P_calc_agua unfolding a_agua_def b_agua_def c_agua_def P_atm_def by blast

theorem ebullicion_agua_grid_minimum_witness:
  "calcular_ebullicion (Fin 101.325) (Fin 16.3872) (Fin (- 3885.70)) (Fin 230.170) (Fin 0) (Fin 0) (Fin 0)
     = Inr (Fin 200) \<and>
   (\<exists>p. P_calc (Fin 16.3872) (Fin (- 3885.70)) (Fin 230.170) (Fin 0) (Fin 0) (Fin 0) ! 0 = Fin p \<and>
       101.325 < p)"
proof -
  have "(0::nat) < 1000" by simp
  with ebullicion_agua_grid_minimum show ?thesis by blast
qed

text \<open>The result 200 is 173 K away from 373, far more than the grid step.\<close>

theorem ebullicion_agua_counterexample:
  "calcular_ebullicion (Fin 101.325) (Fin 16.3872) (Fin (- 3885.70)) (Fin 230.170) (Fin 0) (Fin 0) (Fin 0)
     = Inr (Fin 200) \<and> \<not> \<bar>(200::real) - 373\<bar> \<le> 1 / 2"
proof -
  have "\<not> \<bar>(200::real) - 373\<bar> \<le> 1 / 2" by simp
  then show ?thesis
    using ebullicion_agua unfolding a_agua_def b_agua_def c_agua_def P_atm_def by blast
qed

section \<open>Inverting the vapor pressure\<close>




section \<open>The pair of components\<close>

text \<open>
  C8. For a selection \<open>nombre1|nombre2\<close> (names without the separator) with a name that
  is no \<open>Component\<close> of the table, the pair analysis raises \<open>IndexError\<close>, a
  \<open>LookupError\<close>, at the \<open>.iloc[0]\<close> of the empty selection; it returns no value.
\<close>
theorem par_ausente_LookupError:
  assumes "CHR ''|'' \<notin> set nombre1" "CHR ''|'' \<notin> set nombre2"
    and "nombre1 \<notin> Component ` set df \<or> nombre2 \<notin> Component ` set df"
  shows "diferencia_par df Ptarget (Some (nombre1 @ ''|'' @ nombre2)) = Inl IndexError \<and>
         is_LookupError IndexError"
proof -
  have sp: "str_split (CHR ''|'') (nombre1 @ CHR ''|'' # nombre2) = [nombre1, nombre2]"
    using assms(1,2) by (rule str_split_pair)
  show ?thesis
  proof (cases "nombre1 \<in> Component ` set df")
    case False
    then show ?thesis
      by (simp add: diferencia_par_def sp iloc0_absent)
  next
    case True
    with assms(3) have "nombre2 \<notin> Component ` set df" by simp
    then show ?thesis
      using iloc0_cases[of "filter (\<lambda>r. Component r = nombre1) df"]
      by (auto simp: diferencia_par_def sp iloc0_absent)
  qed
qed

theorem par_ausente_LookupError_witness:
  "diferencia_par
     [\<lparr>Component = ''agua'', col_a = Fin 16.3872, col_b = Fin (- 3885.70), col_c = Fin 230.170,
       col_d = Fin 0, col_e = Fin 0, col_f = Fin 0\<rparr>]
     (Fin 101.325) (Some ''agua|etanol'') = Inl IndexError"
  using par_ausente_LookupError[of "''agua''" "''etanol''"
      "[\<lparr>Component = ''agua'', col_a = Fin 16.3872, col_b = Fin (- 3885.70), col_c = Fin 230.170,
         col_d = Fin 0, col_e = Fin 0, col_f = Fin 0\<rparr>]" "Fin 101.325"]
  by simp

end
